theory Spec2Isabelle
  imports Complex_Main
begin

section \<open>Python values used by the Houm light platform\<close>

text \<open>
  The platform (\<^verbatim>\<open>homeassistant/components/light/houm.py\<close>) handles values that
  come out of parsed JSON documents, socket payloads and the YAML configuration. They
  are modelled by one datatype of Python values. A dictionary with string keys is an
  association list that is read with \<open>map_of\<close>; numbers are Python's unbounded
  integers (JSON numbers with a fraction are left out of the model).
\<close>

datatype pyval =
    PNone
  | PBool bool
  | PInt int
  | PStr string
  | PList "pyval list"
  | PDict "(string \<times> pyval) list"

text \<open>The exceptions that the modelled code can raise or receive.\<close>

datatype exn = RequestException | KeyError | AttributeError | TypeError

text \<open>
  Keys of the two dictionaries that are indexed by a device id. Python hashes
  \<^verbatim>\<open>True\<close> and \<^verbatim>\<open>1\<close> to the same key, and refuses to hash a list or a
  dictionary with a \<^verbatim>\<open>TypeError\<close>.
\<close>

datatype hkey = HNone | HInt int | HStr string

fun py_hash :: "pyval \<Rightarrow> exn + hkey" where
  "py_hash PNone = Inr HNone"
| "py_hash (PBool b) = Inr (HInt (if b then 1 else 0))"
| "py_hash (PInt n) = Inr (HInt n)"
| "py_hash (PStr s) = Inr (HStr s)"
| "py_hash (PList xs) = Inl TypeError"
| "py_hash (PDict kvs) = Inl TypeError"

text \<open>Truth value of a Python value, as \<^verbatim>\<open>if v\<close> and \<^verbatim>\<open>not v\<close> read it.\<close>

fun truthy :: "pyval \<Rightarrow> bool" where
  "truthy PNone = False"
| "truthy (PBool b) = b"
| "truthy (PInt n) = (n \<noteq> 0)"
| "truthy (PStr s) = (s \<noteq> [])"
| "truthy (PList xs) = (xs \<noteq> [])"
| "truthy (PDict kvs) = (kvs \<noteq> [])"

text \<open>\<^verbatim>\<open>value > 0\<close>: defined on booleans and integers, a \<^verbatim>\<open>TypeError\<close> otherwise.\<close>

fun py_gt0 :: "pyval \<Rightarrow> exn + bool" where
  "py_gt0 (PBool b) = Inr b"
| "py_gt0 (PInt n) = Inr (0 < n)"
| "py_gt0 v = Inl TypeError"

text \<open>\<^verbatim>\<open>d.get(k, default)\<close>: only a dictionary has the method.\<close>

fun py_get :: "pyval \<Rightarrow> string \<Rightarrow> pyval \<Rightarrow> exn + pyval" where
  "py_get (PDict kvs) k dflt = Inr (case map_of kvs k of None \<Rightarrow> dflt | Some v \<Rightarrow> v)"
| "py_get v k dflt = Inl AttributeError"

text \<open>\<^verbatim>\<open>d[k]\<close> with a string \<open>k\<close>: a missing key is a \<^verbatim>\<open>KeyError\<close>; the other
  values are not subscriptable by a string.\<close>

fun py_subscript :: "pyval \<Rightarrow> string \<Rightarrow> exn + pyval" where
  "py_subscript (PDict kvs) k = (case map_of kvs k of None \<Rightarrow> Inl KeyError | Some v \<Rightarrow> Inr v)"
| "py_subscript v k = Inl TypeError"

text \<open>\<^verbatim>\<open>needle in hay\<close> for two strings: \<open>needle\<close> occurs as a contiguous part.\<close>

fun str_contains :: "string \<Rightarrow> string \<Rightarrow> bool" where
  "str_contains needle [] = (needle = [])"
| "str_contains needle (c # cs) =
     (take (length needle) (c # cs) = needle \<or> str_contains needle cs)"

text \<open>\<^verbatim>\<open>k in v\<close> for a string \<open>k\<close>: key membership in a dictionary, substring test
  in a string, element test in a list, \<^verbatim>\<open>TypeError\<close> for the values that are not
  containers.\<close>

fun py_in :: "string \<Rightarrow> pyval \<Rightarrow> exn + bool" where
  "py_in k (PDict kvs) = Inr (k \<in> set (map fst kvs))"
| "py_in k (PStr s) = Inr (str_contains k s)"
| "py_in k (PList xs) = Inr (PStr k \<in> set xs)"
| "py_in k v = Inl TypeError"

text \<open>\<^verbatim>\<open>for x in v\<close>: the elements of a list, the keys of a dictionary, the
  characters of a string; the other values are not iterable.\<close>

fun py_iter :: "pyval \<Rightarrow> exn + pyval list" where
  "py_iter (PList xs) = Inr xs"
| "py_iter (PDict kvs) = Inr (map (\<lambda>kv. PStr (fst kv)) kvs)"
| "py_iter (PStr s) = Inr (map (\<lambda>c. PStr [c]) s)"
| "py_iter v = Inl TypeError"

text \<open>\<^verbatim>\<open>v in xs\<close> where \<open>xs\<close> is a list of strings (the type and protocol filters).\<close>

definition py_in_strs :: "pyval \<Rightarrow> string list \<Rightarrow> bool" where
  "py_in_strs v xs = (v \<in> set (map PStr xs))"

section \<open>Clock values and double arithmetic\<close>

text \<open>
  \<^verbatim>\<open>time.time()\<close> returns an IEEE binary64 number and
  \<^verbatim>\<open>self.last_command_sent + 1\<close> is an addition of such numbers: the exact sum,
  rounded to the nearest number with a mantissa of 53 bits, a tie going to the even
  mantissa. Clock values are reals here, and \<open>round_double\<close> is that rounding. The
  exponent range of the format is left out (overflow from \<open>2 ^ 1024\<close> on, the
  subnormal numbers below \<open>2 ^ (- 1022)\<close>): no clock value is there.
\<close>

text \<open>The binary exponent of a positive number: \<open>2 ^ binade x \<le> x < 2 ^ (binade x + 1)\<close>.\<close>

function binade_up :: "real \<Rightarrow> int" where
  "binade_up x = (if 2 \<le> x then 1 + binade_up (x / 2) else 0)"
  by pat_completeness auto
termination
  by (relation "measure (\<lambda>x. nat \<lfloor>x\<rfloor>)") (auto, linarith)

function binade_down :: "real \<Rightarrow> int" where
  "binade_down x = (if 0 < x \<and> x < 1 then binade_down (2 * x) - 1 else 0)"
  by pat_completeness auto
termination
proof (relation "measure (\<lambda>x. nat \<lceil>1 / x\<rceil>)")
  show "wf (measure (\<lambda>x::real. nat \<lceil>1 / x\<rceil>))" by simp
next
  fix x :: real
  assume a: "0 < x \<and> x < 1"
  define y where "y = 1 / x"
  define n where "n = \<lceil>y\<rceil>"
  from a have "1 < y" by (simp add: y_def)
  then have n2: "2 \<le> n" unfolding n_def by linarith
  then have "(2::real) \<le> of_int n" by linarith
  moreover have "y \<le> of_int n" unfolding n_def by (rule le_of_int_ceiling)
  ultimately have "y / 2 \<le> of_int (n - 1)" by simp
  then have c: "\<lceil>y / 2\<rceil> \<le> n - 1" by (simp only: ceiling_le_iff)
  have eq: "1 / (2 * x) = y / 2" by (simp add: y_def)
  have "\<lceil>1 / (2 * x)\<rceil> \<le> n - 1" by (subst eq) (rule c)
  with n2 have "nat \<lceil>1 / (2 * x)\<rceil> < nat n" by linarith
  then show "(2 * x, x) \<in> measure (\<lambda>x. nat \<lceil>1 / x\<rceil>)"
    by (simp only: in_measure n_def y_def)
qed

definition binade :: "real \<Rightarrow> int" where
  "binade x = (if 1 \<le> x then binade_up x else binade_down x)"

definition pow2 :: "int \<Rightarrow> real" where
  "pow2 e = (if 0 \<le> e then 2 ^ nat e else 1 / 2 ^ nat (- e))"

text \<open>The nearest integer, a tie going to the even one.\<close>

definition round_half_even :: "real \<Rightarrow> int" where
  "round_half_even q =
     (let f = \<lfloor>q\<rfloor>
      in if q - of_int f < 1 / 2 then f
         else if 1 / 2 < q - of_int f then f + 1
         else if even f then f else f + 1)"

definition round_double :: "real \<Rightarrow> real" where
  "round_double x =
     (if x = 0 then 0
      else (let e = binade \<bar>x\<bar> - 52
            in sgn x * of_int (round_half_even (\<bar>x\<bar> / pow2 e)) * pow2 e))"

text \<open>\<^verbatim>\<open>a + b\<close> on two floats.\<close>

definition py_float_add :: "real \<Rightarrow> real \<Rightarrow> real" where
  "py_float_add a b = round_double (a + b)"

section \<open>Device records\<close>

text \<open>
  \<^verbatim>\<open>HoumDevice\<close> and its two subclasses. The attributes are whatever the JSON state
  holds under the six keys (\<^verbatim>\<open>None\<close> for a missing key).
\<close>

datatype dev_class = HoumSwitch | HoumDimmer

record device =
  cls :: dev_class
  on :: pyval
  bri :: pyval
  deviceId :: pyval
  type :: pyval
  name :: pyval
  protocol :: pyval

section \<open>The controller and its observable effects\<close>

text \<open>
  What the controller does to the outside world is recorded as a list of events, in
  order: the HTTP request, the events emitted on the socket, the log calls, and the
  two calls into the host (\<^verbatim>\<open>add_devices_callback\<close> and \<^verbatim>\<open>update_ha_state\<close>).
  The objects handed to the host are the objects of the registry, so the events name
  them by their registry key.
\<close>

datatype event =
    HttpGet string
  | Emit string pyval
  | LogError string
  | LogException string
  | AddDevices "hkey list"
  | UpdateHaState hkey

record controller =
  last_command_sent :: real
  SITE_KEY :: string
  config_device_data :: "hkey \<rightharpoonup> pyval"
  protocols :: "string list"
  device_id_map :: "hkey \<rightharpoonup> device"
  effects :: "event list"

definition log :: "event \<Rightarrow> controller \<Rightarrow> controller" where
  "log e s = s\<lparr>effects := effects s @ [e]\<rparr>"

subsection \<open>Outbound command\<close>

text \<open>
  \<^verbatim>\<open>HoumController.set_value(name, device_id, value)\<close>. The conditional expressions
  evaluate \<^verbatim>\<open>value > 0\<close> only when the name is not \<^verbatim>\<open>'on'\<close>.
\<close>

definition set_value :: "string \<Rightarrow> pyval \<Rightarrow> pyval \<Rightarrow> controller \<Rightarrow> (exn + unit) \<times> controller" where
  "set_value nm device_id v s =
     (case (if nm = ''on'' then Inr v else map_sum id PBool (py_gt0 v)) of
        Inl e \<Rightarrow> (Inl e, s)
      | Inr on_v \<Rightarrow>
          (let bri_v = (if nm = ''bri'' then v else if truthy v then PInt 255 else PInt 0)
           in (Inr (),
               log (Emit ''apply/light''
                      (PDict [(''_id'', device_id), (''on'', on_v), (''bri'', bri_v)])) s)))"

subsection \<open>Device methods\<close>

text \<open>
  \<^verbatim>\<open>HoumDevice.__init__\<close>: six \<^verbatim>\<open>get\<close> calls on the JSON state.
\<close>

definition HoumDevice_init :: "dev_class \<Rightarrow> pyval \<Rightarrow> exn + device" where
  "HoumDevice_init c json_state =
     (case json_state of
        PDict kvs \<Rightarrow>
          (let g = (\<lambda>k. case map_of kvs k of None \<Rightarrow> PNone | Some v \<Rightarrow> v)
           in Inr \<lparr>cls = c, on = g ''on'', bri = g ''bri'', deviceId = g ''_id'',
                   type = g ''type'', name = g ''name'', protocol = g ''protocol''\<rparr>)
      | _ \<Rightarrow> Inl AttributeError)"

text \<open>
  \<^verbatim>\<open>HoumDevice.set_value(name, value)\<close>: the device is passed and returned next to
  the controller. In the \<^verbatim>\<open>'bri'\<close> branch the brightness is already stored when
  \<^verbatim>\<open>value > 0\<close> raises.
\<close>

definition HoumDevice_set_value ::
  "string \<Rightarrow> pyval \<Rightarrow> device \<Rightarrow> controller \<Rightarrow> (exn + unit) \<times> device \<times> controller" where
  "HoumDevice_set_value nm v d s =
     (if nm = ''bri'' then
        (case py_gt0 v of
           Inl e \<Rightarrow> (Inl e, d\<lparr>bri := v\<rparr>, s)
         | Inr b \<Rightarrow>
             (let d' = d\<lparr>bri := v, on := PBool b\<rparr>;
                  (r, s') = set_value nm (deviceId d') v s
              in (r, d', s')))
      else if nm = ''on'' then
        (let d' = d\<lparr>on := v\<rparr>;
             (r, s') = set_value nm (deviceId d') v s
         in (r, d', s'))
      else
        (let (r, s') = set_value nm (deviceId d) v s in (r, d, s')))"

definition get_value :: "string \<Rightarrow> device \<Rightarrow> pyval" where
  "get_value nm d = (if nm = ''on'' then on d else if nm = ''bri'' then bri d else PNone)"

text \<open>
  \<^verbatim>\<open>turn_on\<close> and \<^verbatim>\<open>turn_off\<close>, dispatched on the class. \<^verbatim>\<open>HoumSwitch.turn_on\<close>
  takes no keyword argument, so a call with a brightness is a \<^verbatim>\<open>TypeError\<close>; the dimmer
  overrides it and takes the brightness from the keyword arguments when it is there.
\<close>

definition turn_on :: "pyval option \<Rightarrow> device \<Rightarrow> controller \<Rightarrow> (exn + unit) \<times> device \<times> controller" where
  "turn_on brightness_kw d s =
     (case cls d of
        HoumSwitch \<Rightarrow>
          (case brightness_kw of
             None \<Rightarrow> HoumDevice_set_value ''on'' (PBool True) d s
           | Some b \<Rightarrow> (Inl TypeError, d, s))
      | HoumDimmer \<Rightarrow>
          HoumDevice_set_value ''bri''
            (case brightness_kw of None \<Rightarrow> PInt 255 | Some b \<Rightarrow> b) d s)"

definition turn_off :: "device \<Rightarrow> controller \<Rightarrow> (exn + unit) \<times> device \<times> controller" where
  "turn_off d s = HoumDevice_set_value ''on'' (PBool False) d s"

subsection \<open>Fetching the snapshot\<close>

text \<open>
  The test \<^verbatim>\<open>'type' in light and light.get('type') == t\<close> of the first loop of
  \<^verbatim>\<open>get_lights\<close>; \<^verbatim>\<open>and\<close> does not evaluate its right side when the left one
  is false.
\<close>

definition has_type :: "pyval \<Rightarrow> string \<Rightarrow> exn + bool" where
  "has_type light t =
     (case py_in ''type'' light of
        Inl e \<Rightarrow> Inl e
      | Inr False \<Rightarrow> Inr False
      | Inr True \<Rightarrow>
          (case py_get light ''type'' PNone of
             Inl e \<Rightarrow> Inl e
           | Inr v \<Rightarrow> Inr (v = PStr t)))"

text \<open>The first loop of \<^verbatim>\<open>get_lights\<close>, with the list \<^verbatim>\<open>devices\<close> it appends to.\<close>

fun build_devices :: "pyval list \<Rightarrow> device list \<Rightarrow> exn + device list" where
  "build_devices [] devices = Inr devices"
| "build_devices (light # rest) devices =
     (case has_type light ''dimmable'' of
        Inl e \<Rightarrow> Inl e
      | Inr True \<Rightarrow>
          (case HoumDevice_init HoumDimmer light of
             Inl e \<Rightarrow> Inl e
           | Inr d \<Rightarrow> build_devices rest (devices @ [d]))
      | Inr False \<Rightarrow>
          (case has_type light ''binary'' of
             Inl e \<Rightarrow> Inl e
           | Inr True \<Rightarrow>
               (case HoumDevice_init HoumSwitch light of
                  Inl e \<Rightarrow> Inl e
                | Inr d \<Rightarrow> build_devices rest (devices @ [d]))
           | Inr False \<Rightarrow> build_devices rest devices))"

text \<open>The second part of \<^verbatim>\<open>get_lights\<close>: the two allow-lists; an empty list (or
  \<^verbatim>\<open>None\<close>, or the empty dictionary that is the default of \<^verbatim>\<open>protocols\<close>) accepts
  everything.\<close>

definition filter_devices :: "string list \<Rightarrow> string list \<Rightarrow> device list \<Rightarrow> device list" where
  "filter_devices type_filter protocol_filter devices =
     (if type_filter = [] \<and> protocol_filter = [] then devices
      else filter (\<lambda>light. (type_filter = [] \<or> py_in_strs (type light) type_filter)
                        \<and> (protocol_filter = [] \<or> py_in_strs (protocol light) protocol_filter))
             devices)"

definition site_info_url :: "controller \<Rightarrow> string" where
  "site_info_url s = ''https://houmi.herokuapp.com/api/site/'' @ SITE_KEY s"

text \<open>
  \<^verbatim>\<open>get_lights(type_filter, protocol_filter)\<close>. Two things come from the
  environment: \<open>now\<close>, what \<^verbatim>\<open>time.time()\<close> returns on the first line, and
  \<open>response\<close>, what \<^verbatim>\<open>requests.get(url).json()\<close> does: it raises or it returns the
  parsed document. The time stamp is stored before the request is made.
\<close>

definition get_lights ::
  "string list \<Rightarrow> string list \<Rightarrow> real \<Rightarrow> exn + pyval \<Rightarrow> controller
     \<Rightarrow> (exn + device list) \<times> controller" where
  "get_lights type_filter protocol_filter now response s =
     (let s1 = log (HttpGet (site_info_url s)) (s\<lparr>last_command_sent := now\<rparr>)
      in case response of
           Inl e \<Rightarrow> (Inl e, s1)
         | Inr site_info \<Rightarrow>
             (case py_get site_info ''lights'' PNone of
                Inl e \<Rightarrow> (Inl e, s1)
              | Inr lights \<Rightarrow>
                  (case py_iter lights of
                     Inl e \<Rightarrow> (Inl e, s1)
                   | Inr items \<Rightarrow>
                       (case build_devices items [] of
                          Inl e \<Rightarrow> (Inl e, s1)
                        | Inr devices \<Rightarrow>
                            (Inr (filter_devices type_filter protocol_filter devices), s1)))))"

subsection \<open>Reconciliation\<close>

text \<open>
  \<^verbatim>\<open>light.deviceId in cfg and cfg[light.deviceId].get('exclude', False)\<close>, read as
  a truth value. The key has been hashed by the caller.
\<close>

definition excluded :: "(hkey \<rightharpoonup> pyval) \<Rightarrow> hkey \<Rightarrow> exn + bool" where
  "excluded cfg k =
     (case cfg k of
        None \<Rightarrow> Inr False
      | Some opts \<Rightarrow> map_sum id truthy (py_get opts ''exclude'' (PBool False)))"

text \<open>
  The loop over \<^verbatim>\<open>found_lights\<close> in \<^verbatim>\<open>discover_lights_and_sync_statuses\<close>. The
  registry is changed in place, so it is returned also when the loop raises; the list
  \<^verbatim>\<open>new_lights\<close> holds references to registry objects, that is, their keys. The
  \<^verbatim>\<open>else\<close> branch reads \<^verbatim>\<open>self.device_id_map[light.deviceId]\<close>, which is a
  \<^verbatim>\<open>KeyError\<close> when the id is not in the registry.
\<close>

fun reconcile ::
  "(hkey \<rightharpoonup> pyval) \<Rightarrow> device list \<Rightarrow> (hkey \<rightharpoonup> device) \<Rightarrow> hkey list
     \<Rightarrow> (exn + hkey list) \<times> (hkey \<rightharpoonup> device)" where
  "reconcile cfg [] reg new_lights = (Inr new_lights, reg)"
| "reconcile cfg (light # rest) reg new_lights =
     (case py_hash (deviceId light) of
        Inl e \<Rightarrow> (Inl e, reg)
      | Inr k \<Rightarrow>
          (case excluded cfg k of
             Inl e \<Rightarrow> (Inl e, reg)
           | Inr ex \<Rightarrow>
               if reg k = None \<and> \<not> ex then
                 reconcile cfg rest (reg(k \<mapsto> light)) (new_lights @ [k])
               else
                 (case reg k of
                    None \<Rightarrow> (Inl KeyError, reg)
                  | Some light_to_update \<Rightarrow>
                      reconcile cfg rest
                        (reg(k \<mapsto> light_to_update\<lparr>on := on light, bri := bri light\<rparr>))
                        new_lights)))"

text \<open>
  \<^verbatim>\<open>discover_lights_and_sync_statuses()\<close>. \<open>now0\<close> is the clock reading of the rate
  limit test, which compares it with the double sum of the time stamp and 1; \<open>now1\<close>
  and \<open>response\<close> are passed on to \<^verbatim>\<open>get_lights\<close>. Only a
  \<^verbatim>\<open>RequestException\<close> is caught. The result is the Python return value.
\<close>

definition discover_lights_and_sync_statuses ::
  "real \<Rightarrow> real \<Rightarrow> exn + pyval \<Rightarrow> controller \<Rightarrow> (exn + pyval) \<times> controller" where
  "discover_lights_and_sync_statuses now0 now1 response s =
     (if py_float_add (last_command_sent s) 1 > now0 then (Inr PNone, s)
      else
        (case get_lights [''binary'', ''dimmable''] (protocols s) now1 response s of
           (Inl e, s1) \<Rightarrow>
             if e = RequestException
             then (Inr (PBool False), log (LogException ''Error communicating with Houm'') s1)
             else (Inl e, s1)
         | (Inr found_lights, s1) \<Rightarrow>
             (case reconcile (config_device_data s1) found_lights (device_id_map s1) [] of
                (Inl e, reg) \<Rightarrow> (Inl e, s1\<lparr>device_id_map := reg\<rparr>)
              | (Inr new_lights, reg) \<Rightarrow>
                  (Inr PNone,
                   if new_lights \<noteq> []
                   then log (AddDevices new_lights) (s1\<lparr>device_id_map := reg\<rparr>)
                   else s1\<lparr>device_id_map := reg\<rparr>))))"

subsection \<open>Push updates\<close>

text \<open>
  \<^verbatim>\<open>update_light(updated_data)\<close>. In an assignment the right side is evaluated
  before the attribute is stored, so a missing \<^verbatim>\<open>'bri'\<close> is a \<^verbatim>\<open>KeyError\<close> also
  when the device is \<^verbatim>\<open>None\<close>. Only an \<^verbatim>\<open>AttributeError\<close> is caught; its handler
  logs twice (the exception raised by an attribute store on \<^verbatim>\<open>None\<close> has arguments).
\<close>

definition update_light_body :: "pyval \<Rightarrow> controller \<Rightarrow> (exn + unit) \<times> controller" where
  "update_light_body updated_data s =
     (case py_subscript updated_data ''_id'' of
        Inl e \<Rightarrow> (Inl e, s)
      | Inr i \<Rightarrow>
          (case py_hash i of
             Inl e \<Rightarrow> (Inl e, s)
           | Inr k \<Rightarrow>
               (case py_subscript updated_data ''bri'' of
                  Inl e \<Rightarrow> (Inl e, s)
                | Inr b \<Rightarrow>
                    (case device_id_map s k of
                       None \<Rightarrow> (Inl AttributeError, s)
                     | Some updated_device \<Rightarrow>
                         (let s1 = s\<lparr>device_id_map :=
                                        (device_id_map s)(k \<mapsto> updated_device\<lparr>bri := b\<rparr>)\<rparr>
                          in case py_subscript updated_data ''on'' of
                               Inl e \<Rightarrow> (Inl e, s1)
                             | Inr v \<Rightarrow>
                                 (Inr (),
                                  log (UpdateHaState k)
                                    (s1\<lparr>device_id_map :=
                                          (device_id_map s)(k \<mapsto> updated_device\<lparr>bri := b, on := v\<rparr>)\<rparr>)))))))"

definition update_light :: "pyval \<Rightarrow> controller \<Rightarrow> (exn + unit) \<times> controller" where
  "update_light updated_data s =
     (case update_light_body updated_data s of
        (Inl e, s1) \<Rightarrow>
          if e = AttributeError
          then (Inr (), log (LogError ''e.args'')
                          (log (LogError ''Invalid data received from socket: '') s1))
          else (Inl e, s1)
      | (Inr u, s1) \<Rightarrow> (Inr u, s1))"

subsection \<open>Construction\<close>

text \<open>
  The attributes that \<^verbatim>\<open>HoumController.__init__\<close> has assigned, for a configuration
  with a site key, when it makes its first call of
  \<^verbatim>\<open>discover_lights_and_sync_statuses\<close>: the time stamp is 0 and the registry is empty.
\<close>

definition HoumController_init :: "string \<Rightarrow> (hkey \<rightharpoonup> pyval) \<Rightarrow> string list \<Rightarrow> controller" where
  "HoumController_init site_key device_data protos =
     \<lparr>last_command_sent = 0, SITE_KEY = site_key, config_device_data = device_data,
      protocols = protos, device_id_map = Map.empty, effects = []\<rparr>"

subsection \<open>Reading the effects\<close>

text \<open>The URLs fetched, the batches announced and the records whose change was notified,
  in order.\<close>

definition fetches :: "event list \<Rightarrow> string list" where
  "fetches es = concat (map (\<lambda>e. case e of HttpGet u \<Rightarrow> [u] | _ \<Rightarrow> []) es)"

definition announcements :: "event list \<Rightarrow> hkey list list" where
  "announcements es = concat (map (\<lambda>e. case e of AddDevices ks \<Rightarrow> [ks] | _ \<Rightarrow> []) es)"


subsection \<open>Concrete inputs\<close>

text \<open>A dimmer that is off, the same dimmer lit, a binary light, and controllers that
  hold them.\<close>

definition lamp :: device where
  "lamp = \<lparr>cls = HoumDimmer, on = PBool False, bri = PInt 0, deviceId = PStr ''a'',
           type = PStr ''dimmable'', name = PStr ''Lamp'', protocol = PStr ''zwave''\<rparr>"

definition lit_lamp :: device where
  "lit_lamp = lamp\<lparr>on := PBool True, bri := PInt 200\<rparr>"

definition site :: controller where
  "site = HoumController_init ''site'' Map.empty []"

definition site_with_lamp :: controller where
  "site_with_lamp = site\<lparr>device_id_map := [HStr ''a'' \<mapsto> lamp]\<rparr>"

definition light_json :: "string \<Rightarrow> string \<Rightarrow> bool \<Rightarrow> int \<Rightarrow> pyval" where
  "light_json i t o_v b =
     PDict [(''_id'', PStr i), (''type'', PStr t), (''name'', PStr i),
            (''protocol'', PStr ''zwave''), (''on'', PBool o_v), (''bri'', PInt b)]"

definition snapshot :: "pyval list \<Rightarrow> pyval" where
  "snapshot ls = PDict [(''lights'', PList ls)]"

definition site_excluding_x :: controller where
  "site_excluding_x =
     HoumController_init ''site'' [HStr ''x'' \<mapsto> PDict [(''exclude'', PBool True)]] []"

definition switch_a :: device where
  "switch_a = \<lparr>cls = HoumSwitch, on = PBool False, bri = PInt 0, deviceId = PStr ''a'',
               type = PStr ''binary'', name = PStr ''a'', protocol = PStr ''zwave''\<rparr>"


text \<open>The entries of a list of fetched lights whose id hashes to the key \<open>k\<close>.\<close>

definition entries_for :: "hkey \<Rightarrow> device list \<Rightarrow> device list" where
  "entries_for k found = filter (\<lambda>light. py_hash (deviceId light) = Inr k) found"

section \<open>Properties\<close>

subsection \<open>Double addition\<close>

lemma binade_up_bounds:
  "2 ^ n \<le> x \<Longrightarrow> x < 2 ^ Suc n \<Longrightarrow> binade_up x = int n"
proof (induction n arbitrary: x)
  case 0
  then show ?case by simp
next
  case (Suc n)
  have "(1::real) \<le> 2 ^ n" by simp
  then have "(2::real) \<le> 2 ^ Suc n" by simp
  with Suc.prems(1) have "2 \<le> x" by linarith
  moreover from Suc.prems have "2 ^ n \<le> x / 2" "x / 2 < 2 ^ Suc n" by simp_all
  ultimately show ?case using Suc.IH[of "x / 2"] by simp
qed

lemma round_half_even_of_int: "round_half_even (of_int m) = m"
  by (simp add: round_half_even_def)

text \<open>A number from \<open>2 ^ n\<close> up to \<open>2 ^ (n + 1)\<close> is rounded to a multiple of
  \<open>2 ^ (n - 52)\<close>.\<close>

lemma round_double_binade:
  assumes "2 ^ n \<le> x" and "x < 2 ^ Suc n"
  shows "round_double x = of_int (round_half_even (x / pow2 (int n - 52))) * pow2 (int n - 52)"
proof -
  have "(1::real) \<le> 2 ^ n" by simp
  with assms(1) have x1: "1 \<le> x" by linarith
  then have "binade \<bar>x\<bar> = int n"
    using binade_up_bounds[OF assms] by (simp add: binade_def)
  with x1 show ?thesis by (simp add: round_double_def Let_def)
qed

lemma py_float_add_0_1: "py_float_add 0 1 = 1"
  using round_double_binade[of 0 1] by (simp add: py_float_add_def pow2_def round_half_even_def)

lemma py_float_add_10_1: "py_float_add 10 1 = 11"
  using round_double_binade[of 3 11] by (simp add: py_float_add_def pow2_def round_half_even_def)

text \<open>The sum is exact for the clock values of the years 2004 to 2038: a double from
  \<open>2 ^ 30\<close> up to \<open>2 ^ 31\<close> is a multiple of \<open>2 ^ (- 22)\<close>, and so is the sum as long
  as it stays below \<open>2 ^ 31\<close>.\<close>

lemma py_float_add_epoch_exact:
  assumes grid: "t = of_int k / 2 ^ 22" and lo: "2 ^ 30 \<le> t" and hi: "t + 1 < 2 ^ 31"
  shows "py_float_add t 1 = t + 1"
proof -
  have lo1: "2 ^ 30 \<le> t + 1" using lo by simp
  have hi1: "t + 1 < 2 ^ Suc 30" using hi by simp
  have p: "pow2 (int 30 - 52) = 1 / 2 ^ 22" by (simp add: pow2_def)
  have "(t + 1) / pow2 (int 30 - 52) = of_int (k + 2 ^ 22)"
    unfolding p grid by simp
  then have "round_half_even ((t + 1) / pow2 (int 30 - 52)) = k + 2 ^ 22"
    by (simp only: round_half_even_of_int)
  with round_double_binade[OF lo1 hi1] p
  have "round_double (t + 1) = of_int (k + 2 ^ 22) / 2 ^ 22"
    by simp
  also have "\<dots> = t + 1" unfolding grid by (simp add: field_simps)
  finally show ?thesis by (simp add: py_float_add_def)
qed


subsection \<open>Local writes of a device record\<close>

text \<open>
  C1. The claim: \<^verbatim>\<open>set_value\<close> of a device record keeps the local pair consistent
  for both field names: \<^verbatim>\<open>'on'\<close> with true sets the brightness to 255, with false
  to 0, and \<^verbatim>\<open>'bri'\<close> with \<open>v\<close> sets \<^verbatim>\<open>on\<close> to \<open>v > 0\<close>. The code does the
  second and misses the first: its \<^verbatim>\<open>'on'\<close> branch stores \<^verbatim>\<open>on\<close> only. Switching
  the dark dimmer on leaves its brightness at 0 while the controller is told 255, and
  \<^verbatim>\<open>turn_off\<close> of the lit dimmer leaves its brightness at 200 while the controller
  is told 0.
\<close>

theorem device_set_value_on_keeps_old_bri:
  "HoumDevice_set_value ''on'' (PBool True) lamp s =
     (Inr (), lamp\<lparr>on := PBool True, bri := PInt 0\<rparr>,
      log (Emit ''apply/light''
             (PDict [(''_id'', PStr ''a''), (''on'', PBool True), (''bri'', PInt 255)])) s)
   \<and> turn_off lit_lamp s =
     (Inr (), lamp\<lparr>on := PBool False, bri := PInt 200\<rparr>,
      log (Emit ''apply/light''
             (PDict [(''_id'', PStr ''a''), (''on'', PBool False), (''bri'', PInt 0)])) s)"
  by (simp add: HoumDevice_set_value_def turn_off_def set_value_def lamp_def lit_lamp_def)

text \<open>The part of C1 that the code does: the \<^verbatim>\<open>'on'\<close> branch never touches the
  brightness, and the \<^verbatim>\<open>'bri'\<close> branch derives \<^verbatim>\<open>on\<close>.\<close>

lemma device_set_value_on_bri_unchanged:
  "bri (fst (snd (HoumDevice_set_value ''on'' v d s))) = bri d"
  by (simp add: HoumDevice_set_value_def set_value_def split: sum.splits prod.splits)

lemma device_set_value_bri_derives_on:
  "fst (snd (HoumDevice_set_value ''bri'' (PInt n) d s)) = d\<lparr>bri := PInt n, on := PBool (0 < n)\<rparr>"
  by (simp add: HoumDevice_set_value_def set_value_def)



subsection \<open>Outbound command\<close>

text \<open>
  C6. \<^verbatim>\<open>set_value\<close> of the controller adds exactly one \<^verbatim>\<open>apply/light\<close> event to
  the effects and changes nothing else. For the field \<^verbatim>\<open>'on'\<close> and a boolean the
  payload has that boolean as \<^verbatim>\<open>on\<close> and 255 or 0 as \<^verbatim>\<open>bri\<close>; for the field
  \<^verbatim>\<open>'bri'\<close> and an integer it has that integer as \<^verbatim>\<open>bri\<close> and \<open>value > 0\<close> as
  \<^verbatim>\<open>on\<close>.
\<close>

theorem set_value_emits_canonical_pair:
  "set_value ''on'' i (PBool b) s =
     (Inr (), s\<lparr>effects := effects s @ [Emit ''apply/light''
         (PDict [(''_id'', i), (''on'', PBool b), (''bri'', PInt (if b then 255 else 0))])]\<rparr>)
   \<and> set_value ''bri'' i (PInt n) s =
     (Inr (), s\<lparr>effects := effects s @ [Emit ''apply/light''
         (PDict [(''_id'', i), (''on'', PBool (0 < n)), (''bri'', PInt n)])]\<rparr>)"
  by (simp add: set_value_def log_def)

subsection \<open>Push updates\<close>

text \<open>
  C3. The claim: a push payload with an unknown id or without one of the fields
  \<^verbatim>\<open>'_id'\<close>, \<^verbatim>\<open>'bri'\<close>, \<^verbatim>\<open>'on'\<close> is logged and dropped, no record changes and
  no exception leaves the handler. The handler catches \<^verbatim>\<open>AttributeError\<close> only. A
  payload without \<^verbatim>\<open>'_id'\<close> raises \<^verbatim>\<open>KeyError\<close> out of the handler, with nothing
  logged; a payload for a known id without \<^verbatim>\<open>'on'\<close> does the same after the
  record's brightness has been overwritten.
\<close>

theorem update_light_key_error_escapes:
  "update_light (PDict [(''on'', PBool True), (''bri'', PInt 200)]) s = (Inl KeyError, s)
   \<and> update_light (PDict [(''_id'', PStr ''a''), (''bri'', PInt 200)]) site_with_lamp =
       (Inl KeyError, site_with_lamp\<lparr>device_id_map := [HStr ''a'' \<mapsto> lamp\<lparr>bri := PInt 200\<rparr>]\<rparr>)"
  by (simp add: update_light_def update_light_body_def site_with_lamp_def)

text \<open>The part of C3 that the code does: a complete payload for an id that is not in
  the registry is logged and dropped, and the handler returns.\<close>

lemma update_light_unknown_id_dropped:
  assumes "py_subscript p ''_id'' = Inr i" and "py_hash i = Inr k"
    and "py_subscript p ''bri'' = Inr b" and "device_id_map s k = None"
  shows "fst (update_light p s) = Inr ()"
    and "device_id_map (snd (update_light p s)) = device_id_map s"
    and "effects (snd (update_light p s)) =
           effects s @ [LogError ''Invalid data received from socket: '', LogError ''e.args'']"
  using assms by (simp_all add: update_light_def update_light_body_def log_def)

text \<open>The push of a complete payload for a known id: both fields are overwritten and
  the host is notified once.\<close>

lemma update_light_known_id:
  assumes "py_subscript p ''_id'' = Inr i" and "py_hash i = Inr k"
    and "py_subscript p ''bri'' = Inr b" and "py_subscript p ''on'' = Inr v"
    and "device_id_map s k = Some d"
  shows "update_light p s =
           (Inr (), s\<lparr>device_id_map := (device_id_map s)(k \<mapsto> d\<lparr>bri := b, on := v\<rparr>),
                       effects := effects s @ [UpdateHaState k]\<rparr>)"
  using assms by (simp add: update_light_def update_light_body_def log_def)

subsection \<open>The refresh pass and the network\<close>

text \<open>
  C5. When the fetch raises \<^verbatim>\<open>RequestException\<close> in a pass that is not stopped by
  the rate limit, the pass returns \<^verbatim>\<open>False\<close>, the registry is the one from before the
  pass, and the effects are the request and one logged exception.
\<close>

theorem network_failure_leaves_registry:
  assumes "\<not> py_float_add (last_command_sent s) 1 > now0"
  shows "fst (discover_lights_and_sync_statuses now0 now1 (Inl RequestException) s)
           = Inr (PBool False)
       \<and> device_id_map (snd (discover_lights_and_sync_statuses now0 now1 (Inl RequestException) s))
           = device_id_map s
       \<and> effects (snd (discover_lights_and_sync_statuses now0 now1 (Inl RequestException) s))
           = effects s @ [HttpGet (site_info_url s),
                          LogException ''Error communicating with Houm'']"
  using assms
  by (simp add: discover_lights_and_sync_statuses_def get_lights_def log_def)

theorem network_failure_leaves_registry_witness:
  "\<not> py_float_add (last_command_sent site_with_lamp) 1 > 10
   \<and> fst (discover_lights_and_sync_statuses 10 10 (Inl RequestException) site_with_lamp)
       = Inr (PBool False)
   \<and> device_id_map (snd (discover_lights_and_sync_statuses 10 10 (Inl RequestException) site_with_lamp))
       = [HStr ''a'' \<mapsto> lamp]"
proof -
  have h: "\<not> py_float_add (last_command_sent site_with_lamp) 1 > 10"
    by (simp add: site_with_lamp_def site_def HoumController_init_def py_float_add_0_1)
  have "device_id_map site_with_lamp = [HStr ''a'' \<mapsto> lamp]"
    by (simp add: site_with_lamp_def)
  with h network_failure_leaves_registry [OF h, of 10] show ?thesis by simp
qed

text \<open>
  C10. A document that is a mapping without the key \<^verbatim>\<open>'lights'\<close> makes the pass
  raise: \<^verbatim>\<open>site_info.get('lights')\<close> is \<^verbatim>\<open>None\<close>, iterating it raises
  \<^verbatim>\<open>TypeError\<close>, which is not the exception that the pass catches, so it leaves
  \<^verbatim>\<open>get_lights\<close> and \<^verbatim>\<open>discover_lights_and_sync_statuses\<close>; the time stamp has
  been stored and nothing is logged.
\<close>

theorem missing_lights_key_raises:
  assumes "map_of kvs ''lights'' = None" and "\<not> py_float_add (last_command_sent s) 1 > now0"
  shows "py_get (PDict kvs) ''lights'' PNone = Inr PNone
       \<and> fst (get_lights [''binary'', ''dimmable''] (protocols s) now1 (Inr (PDict kvs)) s)
           = Inl TypeError
       \<and> TypeError \<noteq> RequestException
       \<and> discover_lights_and_sync_statuses now0 now1 (Inr (PDict kvs)) s
           = (Inl TypeError,
              s\<lparr>last_command_sent := now1, effects := effects s @ [HttpGet (site_info_url s)]\<rparr>)"
  using assms
  by (simp add: discover_lights_and_sync_statuses_def get_lights_def log_def)

theorem missing_lights_key_raises_witness:
  "map_of [(''name'', PStr ''home'')] ''lights'' = None
   \<and> \<not> py_float_add (last_command_sent site) 1 > 10
   \<and> fst (discover_lights_and_sync_statuses 10 10 (Inr (PDict [(''name'', PStr ''home'')])) site)
       = Inl TypeError"
proof -
  have h1: "map_of [(''name'', PStr ''home'')] ''lights'' = None" by simp
  have h2: "\<not> py_float_add (last_command_sent site) 1 > 10"
    by (simp add: site_def HoumController_init_def py_float_add_0_1)
  from missing_lights_key_raises [OF h1 h2, of 10] h1 h2 show ?thesis by simp
qed

subsection \<open>Shape of a pass\<close>

text \<open>The definitions and values that a concrete pass unfolds.\<close>

lemmas pass_defs = discover_lights_and_sync_statuses_def get_lights_def has_type_def
  HoumDevice_init_def filter_devices_def py_in_strs_def excluded_def log_def
  snapshot_def light_json_def site_def HoumController_init_def site_info_url_def
  py_float_add_0_1 py_float_add_10_1

lemma get_lights_snd:
  "snd (get_lights tf pf now response s) =
     log (HttpGet (site_info_url s)) (s\<lparr>last_command_sent := now\<rparr>)"
  by (simp add: get_lights_def Let_def split: sum.splits)

lemma get_lights_fst:
  "fst (get_lights tf pf now response s) = fst (get_lights tf pf now' response s')"
  by (simp add: get_lights_def Let_def split: sum.splits)


lemma discover_fetching:
  assumes "\<not> py_float_add (last_command_sent s) 1 > now0"
    and "discover_lights_and_sync_statuses now0 now1 response s = (r, s')"
  shows "last_command_sent s' = now1"
    and "fetches (effects s') = fetches (effects s) @ [site_info_url s]"
    and "protocols s' = protocols s"
    and "config_device_data s' = config_device_data s"
proof -
  obtain g t where g: "get_lights [''binary'', ''dimmable''] (protocols s) now1 response s = (g, t)"
    by (cases "get_lights [''binary'', ''dimmable''] (protocols s) now1 response s")
  have t: "t = log (HttpGet (site_info_url s)) (s\<lparr>last_command_sent := now1\<rparr>)"
    using get_lights_snd[of "[''binary'', ''dimmable'']" "protocols s" now1 response s] g by simp
  from assms g t show "last_command_sent s' = now1"
    by (auto simp: discover_lights_and_sync_statuses_def log_def
        split: sum.splits prod.splits if_splits)
  from assms g t show "fetches (effects s') = fetches (effects s) @ [site_info_url s]"
    by (auto simp: discover_lights_and_sync_statuses_def log_def fetches_def
        split: sum.splits prod.splits if_splits)
  from assms g t show "protocols s' = protocols s"
    by (auto simp: discover_lights_and_sync_statuses_def log_def
        split: sum.splits prod.splits if_splits)
  from assms g t show "config_device_data s' = config_device_data s"
    by (auto simp: discover_lights_and_sync_statuses_def log_def
        split: sum.splits prod.splits if_splits)
qed

text \<open>The registry after a pass is the one from before, or what the loop made of it.\<close>

lemma discover_registry:
  assumes "discover_lights_and_sync_statuses now0 now1 response s = (r, s')"
  shows "device_id_map s' = device_id_map s
       \<or> (\<exists>found q. reconcile (config_device_data s) found (device_id_map s) []
                        = (q, device_id_map s'))"
proof -
  obtain g t where g: "get_lights [''binary'', ''dimmable''] (protocols s) now1 response s = (g, t)"
    by (cases "get_lights [''binary'', ''dimmable''] (protocols s) now1 response s")
  have t: "t = log (HttpGet (site_info_url s)) (s\<lparr>last_command_sent := now1\<rparr>)"
    using get_lights_snd[of "[''binary'', ''dimmable'']" "protocols s" now1 response s] g by simp
  show ?thesis
  proof (cases g)
    case (Inl e)
    with assms g t show ?thesis
      by (auto simp: discover_lights_and_sync_statuses_def log_def split: if_splits)
  next
    case (Inr found)
    obtain q reg' where run:
      "reconcile (config_device_data s) found (device_id_map s) [] = (q, reg')"
      by (cases "reconcile (config_device_data s) found (device_id_map s) []")
    with assms g t Inr have "device_id_map s' = device_id_map s \<or> device_id_map s' = reg'"
      by (auto simp: discover_lights_and_sync_statuses_def log_def split: sum.splits if_splits)
    with run show ?thesis by auto
  qed
qed

subsection \<open>The rate limit\<close>


text \<open>The clock matters too: \<^verbatim>\<open>time.time()\<close> is the wall clock. When it is set back
  between the test of the first call and the reading in \<^verbatim>\<open>get_lights\<close>, the time stamp
  is early and a second call half a second after the first fetches again.\<close>

lemma refresh_clock_set_back_example:
  "fetches (effects (snd (discover_lights_and_sync_statuses (21 / 2) (21 / 2)
                            (Inl RequestException)
                            (snd (discover_lights_and_sync_statuses 10 0
                                    (Inl RequestException) site)))))
     = [''https://houmi.herokuapp.com/api/site/site'',
        ''https://houmi.herokuapp.com/api/site/site'']"
  by (simp add: pass_defs fetches_def)



subsection \<open>The reconciliation loop\<close>

text \<open>The loop never removes a key.\<close>

lemma reconcile_dom_mono:
  "reconcile cfg ls reg new = (r, reg') \<Longrightarrow> dom reg \<subseteq> dom reg'"
proof (induction ls arbitrary: reg new)
  case Nil
  then show ?case by simp
next
  case (Cons l ls)
  then show ?case
    by (fastforce split: sum.splits if_splits option.splits)
qed

text \<open>A record that is in the registry stays there with its class, id, type, name and
  protocol, also when the loop raises.\<close>

lemma reconcile_frame:
  "reconcile cfg ls reg new = (r, reg') \<Longrightarrow> reg k = Some d \<Longrightarrow>
   \<exists>d'. reg' k = Some d' \<and> cls d' = cls d \<and> deviceId d' = deviceId d \<and> type d' = type d
        \<and> name d' = name d \<and> protocol d' = protocol d"
proof (induction ls arbitrary: reg new d)
  case Nil
  then show ?case by simp
next
  case (Cons l ls)
  show ?case
  proof (cases "py_hash (deviceId l)")
    case (Inl e)
    with Cons.prems show ?thesis by auto
  next
    case (Inr k0)
    note k0 = this
    show ?thesis
    proof (cases "excluded cfg k0")
      case (Inl e)
      with k0 Cons.prems show ?thesis by auto
    next
      case (Inr ex)
      note ex = this
      show ?thesis
      proof (cases "reg k0")
        case None
        with Cons.prems(2) have ne: "k0 \<noteq> k" by auto
        show ?thesis
        proof (cases ex)
          case True
          with None k0 ex Cons.prems show ?thesis by auto
        next
          case False
          with None k0 ex Cons.prems(1)
          have run: "reconcile cfg ls (reg(k0 \<mapsto> l)) (new @ [k0]) = (r, reg')" by simp
          from ne Cons.prems(2) have "(reg(k0 \<mapsto> l)) k = Some d" by simp
          from Cons.IH[OF run this] show ?thesis .
        qed
      next
        case (Some d0)
        let ?d1 = "d0\<lparr>on := on l, bri := bri l\<rparr>"
        from Some k0 ex Cons.prems(1)
        have run: "reconcile cfg ls (reg(k0 \<mapsto> ?d1)) new = (r, reg')" by simp
        show ?thesis
        proof (cases "k0 = k")
          case True
          with Some Cons.prems(2) have "d0 = d" by simp
          with True have "(reg(k0 \<mapsto> ?d1)) k = Some (d\<lparr>on := on l, bri := bri l\<rparr>)" by simp
          from Cons.IH[OF run this] show ?thesis by simp
        next
          case False
          with Cons.prems(2) have "(reg(k0 \<mapsto> ?d1)) k = Some d" by simp
          from Cons.IH[OF run this] show ?thesis .
        qed
      qed
    qed
  qed
qed

text \<open>When the loop completes, a record that was in the registry has the state of the
  last fetched entry with its id, if there is one.\<close>

lemma reconcile_overwrites:
  "reconcile cfg ls reg new = (Inr new', reg') \<Longrightarrow> reg k = Some d \<Longrightarrow>
   reg' k = Some (case filter (\<lambda>l. py_hash (deviceId l) = Inr k) ls of
                    [] \<Rightarrow> d
                  | h # hs \<Rightarrow> d\<lparr>on := on (last (h # hs)), bri := bri (last (h # hs))\<rparr>)"
proof (induction ls arbitrary: reg new d)
  case Nil
  then show ?case by simp
next
  case (Cons l ls)
  then show ?case
    by (auto split: sum.splits if_splits option.splits list.splits)
qed

text \<open>The frame property for a whole pass, whatever the clock and the response.\<close>

lemma discover_frame:
  assumes "discover_lights_and_sync_statuses now0 now1 response s = (r, s')"
    and "device_id_map s k = Some d"
  shows "\<exists>d'. device_id_map s' k = Some d' \<and> cls d' = cls d \<and> deviceId d' = deviceId d
            \<and> type d' = type d \<and> name d' = name d \<and> protocol d' = protocol d"
  using discover_registry[OF assms(1)] assms(2) reconcile_frame by fastforce

text \<open>A pass that fetches and completes leaves a record that was in the registry with
  the state of the last fetched light with its id, and as it was when there is none.\<close>

lemma discover_overwrites_present:
  assumes fetch: "\<not> py_float_add (last_command_sent s) 1 > now0"
    and found: "fst (get_lights [''binary'', ''dimmable''] (protocols s) now1 response s)
                  = Inr found"
    and pass: "discover_lights_and_sync_statuses now0 now1 response s = (Inr v, s')"
    and present: "device_id_map s k = Some d"
  shows "device_id_map s' k =
           Some (if entries_for k found = [] then d
                 else d\<lparr>on := on (last (entries_for k found)),
                        bri := bri (last (entries_for k found))\<rparr>)"
proof -
  obtain g t where g: "get_lights [''binary'', ''dimmable''] (protocols s) now1 response s = (g, t)"
    by (cases "get_lights [''binary'', ''dimmable''] (protocols s) now1 response s")
  with found have gf: "g = Inr found" by simp
  have t: "t = log (HttpGet (site_info_url s)) (s\<lparr>last_command_sent := now1\<rparr>)"
    using get_lights_snd[of "[''binary'', ''dimmable'']" "protocols s" now1 response s] g by simp
  obtain q reg' where run:
    "reconcile (config_device_data s) found (device_id_map s) [] = (q, reg')"
    by (cases "reconcile (config_device_data s) found (device_id_map s) []")
  from pass fetch g gf t run obtain n where q: "q = Inr n" and reg: "device_id_map s' = reg'"
    by (auto simp: discover_lights_and_sync_statuses_def log_def split: sum.splits if_splits)
  from run q have "reconcile (config_device_data s) found (device_id_map s) [] = (Inr n, reg')"
    by simp
  from reconcile_overwrites[OF this present] reg show ?thesis
    by (auto simp: entries_for_def split: list.splits)
qed

text \<open>
  C9. The claim: for every snapshot entry whose id is in the registry, the pass
  overwrites the record's \<^verbatim>\<open>on\<close> and \<^verbatim>\<open>bri\<close> from the snapshot and leaves its id,
  type, protocol and name as they are. The second half holds for every pass
  (\<open>discover_frame\<close>), and the first half for every pass that completes
  (\<open>discover_overwrites_present\<close>). But the loop stops at the first entry that raises,
  and the entry of an excluded id that is not in the registry raises \<^verbatim>\<open>KeyError\<close>
  (see C2); the entries behind it are not reached. Below, a first pass registers the
  light \<open>a\<close>, which is off. The next snapshot lists the excluded \<open>x\<close> and then \<open>a\<close>,
  now lit: the pass raises at \<open>x\<close>, and the record of \<open>a\<close> is still off.
\<close>

theorem present_entry_behind_excluded_not_overwritten:
  "discover_lights_and_sync_statuses 10 10
     (Inr (snapshot [light_json ''a'' ''binary'' False 0])) site_excluding_x =
     (Inr PNone,
      site_excluding_x\<lparr>last_command_sent := 10,
           effects := [HttpGet ''https://houmi.herokuapp.com/api/site/site'',
                       AddDevices [HStr ''a'']],
           device_id_map := [HStr ''a'' \<mapsto> switch_a]\<rparr>)
   \<and> discover_lights_and_sync_statuses 20 20
       (Inr (snapshot [light_json ''x'' ''binary'' False 0,
                       light_json ''a'' ''binary'' True 255]))
       (site_excluding_x\<lparr>last_command_sent := 10,
           effects := [HttpGet ''https://houmi.herokuapp.com/api/site/site'',
                       AddDevices [HStr ''a'']],
           device_id_map := [HStr ''a'' \<mapsto> switch_a]\<rparr>) =
     (Inl KeyError,
      site_excluding_x\<lparr>last_command_sent := 20,
           effects := [HttpGet ''https://houmi.herokuapp.com/api/site/site'',
                       AddDevices [HStr ''a''],
                       HttpGet ''https://houmi.herokuapp.com/api/site/site''],
           device_id_map := [HStr ''a'' \<mapsto> switch_a]\<rparr>)
   \<and> on switch_a = PBool False \<and> bri switch_a = PInt 0"
  by (simp add: pass_defs site_excluding_x_def switch_a_def)

text \<open>The same two snapshots in a site that excludes nothing: the second pass completes
  and the record of \<open>a\<close> is lit.\<close>

lemma present_entry_overwritten_example:
  "discover_lights_and_sync_statuses 20 20
     (Inr (snapshot [light_json ''x'' ''binary'' False 0,
                     light_json ''a'' ''binary'' True 255]))
     (site\<lparr>last_command_sent := 10, device_id_map := [HStr ''a'' \<mapsto> switch_a]\<rparr>) =
     (Inr PNone,
      site\<lparr>last_command_sent := 20,
           effects := [HttpGet ''https://houmi.herokuapp.com/api/site/site'',
                       AddDevices [HStr ''x'']],
           device_id_map :=
             [HStr ''a'' \<mapsto> switch_a\<lparr>on := PBool True, bri := PInt 255\<rparr>,
              HStr ''x'' \<mapsto> switch_a\<lparr>deviceId := PStr ''x'', name := PStr ''x''\<rparr>]\<rparr>)"
  by (simp add: pass_defs switch_a_def fun_upd_twist)

subsection \<open>Idempotence\<close>

text \<open>Running the loop again on the same lights, from a registry with the keys that the
  first run left, ends the same way, adds no key and collects no new light.\<close>

lemma reconcile_again:
  "reconcile cfg ls reg new = (r, reg') \<Longrightarrow> dom R = dom reg' \<Longrightarrow>
   \<exists>R'. reconcile cfg ls R new2 = (case r of Inl e \<Rightarrow> Inl e | Inr n \<Rightarrow> Inr new2, R')
        \<and> dom R' = dom R"
proof (induction ls arbitrary: reg new R)
  case Nil
  then show ?case by auto
next
  case (Cons l ls)
  show ?case
  proof (cases "py_hash (deviceId l)")
    case (Inl e)
    with Cons.prems show ?thesis by auto
  next
    case (Inr k)
    note k = this
    show ?thesis
    proof (cases "excluded cfg k")
      case (Inl e)
      with k Cons.prems show ?thesis by auto
    next
      case (Inr ex)
      note ex = this
      have step: ?thesis
        if run: "reconcile cfg ls reg1 new1 = (r, reg')" and sub: "k \<in> dom reg1" for reg1 new1
      proof -
        from reconcile_dom_mono[OF run] sub have "k \<in> dom reg'" by auto
        with Cons.prems(2) obtain d where d: "R k = Some d" by auto
        let ?R1 = "R(k \<mapsto> d\<lparr>on := on l, bri := bri l\<rparr>)"
        from d have same: "dom ?R1 = dom R" by auto
        with Cons.prems(2) have "dom ?R1 = dom reg'" by simp
        from Cons.IH[OF run this] obtain R' where
          "reconcile cfg ls ?R1 new2 = (case r of Inl e \<Rightarrow> Inl e | Inr n \<Rightarrow> Inr new2, R')"
          "dom R' = dom ?R1" by blast
        with d k ex same show ?thesis by simp
      qed
      show ?thesis
      proof (cases "reg k")
        case None
        show ?thesis
        proof (cases ex)
          case True
          with None k ex Cons.prems have "r = Inl KeyError" "reg' = reg" by auto
          with None Cons.prems(2) have "R k = None" by (metis domIff)
          with True k ex \<open>r = Inl KeyError\<close> show ?thesis by simp
        next
          case False
          with None k ex Cons.prems(1)
          have "reconcile cfg ls (reg(k \<mapsto> l)) (new @ [k]) = (r, reg')" by simp
          then show ?thesis by (rule step) simp
        qed
      next
        case (Some d0)
        with k ex Cons.prems(1)
        have "reconcile cfg ls (reg(k \<mapsto> d0\<lparr>on := on l, bri := bri l\<rparr>)) new = (r, reg')"
          by simp
        then show ?thesis by (rule step) simp
      qed
    qed
  qed
qed

text \<open>
  C8. A pass that fetches, followed by a second pass on the same response once the rate
  limit has elapsed: the second pass leaves the set of registry keys as the first pass
  made it (no record is inserted) and calls \<^verbatim>\<open>add_devices_callback\<close> not at all.
  This holds for every response, also one on which the passes raise.
\<close>

theorem second_pass_adds_nothing:
  assumes first: "\<not> py_float_add (last_command_sent s) 1 > now0"
    and p1: "discover_lights_and_sync_statuses now0 now1 response s = (r1, s1)"
    and second: "\<not> py_float_add (last_command_sent s1) 1 > now2"
    and p2: "discover_lights_and_sync_statuses now2 now3 response s1 = (r2, s2)"
  shows "dom (device_id_map s2) = dom (device_id_map s1)
       \<and> announcements (effects s2) = announcements (effects s1)"
proof -
  obtain g t1 where Pair:
    "get_lights [''binary'', ''dimmable''] (protocols s) now1 response s = (g, t1)"
    by (cases "get_lights [''binary'', ''dimmable''] (protocols s) now1 response s")
  have t1: "t1 = log (HttpGet (site_info_url s)) (s\<lparr>last_command_sent := now1\<rparr>)"
    using get_lights_snd[of "[''binary'', ''dimmable'']" "protocols s" now1 response s] Pair
    by simp
  obtain g2 t2 where Pair2:
    "get_lights [''binary'', ''dimmable''] (protocols s1) now3 response s1 = (g2, t2)"
    by (cases "get_lights [''binary'', ''dimmable''] (protocols s1) now3 response s1")
  have t2: "t2 = log (HttpGet (site_info_url s1)) (s1\<lparr>last_command_sent := now3\<rparr>)"
    using get_lights_snd[of "[''binary'', ''dimmable'']" "protocols s1" now3 response s1] Pair2
    by simp
  note same = discover_fetching(3,4)[OF first p1]
  have g2: "g2 = g"
    using get_lights_fst[of "[''binary'', ''dimmable'']" "protocols s" now3 response s1 now1 s]
      Pair Pair2 same(1)
    by simp
  show ?thesis
  proof (cases g)
    case (Inl e)
    with p2 second Pair2 g2 t2 show ?thesis
      by (auto simp: discover_lights_and_sync_statuses_def log_def announcements_def
          split: if_splits)
  next
    case (Inr found)
    obtain q reg' where run:
      "reconcile (config_device_data s) found (device_id_map s) [] = (q, reg')"
      by (cases "reconcile (config_device_data s) found (device_id_map s) []")
    have reg1: "device_id_map s1 = reg'"
      using p1 first Pair t1 Inr run
      by (auto simp: discover_lights_and_sync_statuses_def log_def split: sum.splits if_splits)
    from reconcile_again[OF run, of "device_id_map s1" "[]"] reg1
    obtain R' where again: "reconcile (config_device_data s) found (device_id_map s1) []
        = (case q of Inl e \<Rightarrow> Inl e | Inr n \<Rightarrow> Inr [], R')"
      and dom: "dom R' = dom (device_id_map s1)"
      by auto
    have s2: "device_id_map s2 = R'" "effects s2 = effects s1 @ [HttpGet (site_info_url s1)]"
      using p2 second Pair2 g2 t2 Inr again same(2)
      by (auto simp: discover_lights_and_sync_statuses_def log_def split: sum.splits if_splits)
    with dom show ?thesis by (simp add: announcements_def)
  qed
qed

text \<open>An instance: the first pass, on the empty registry, inserts and announces the
  light \<open>a\<close>; the second pass, ten seconds later on the same document, makes a request
  and nothing else.\<close>

theorem second_pass_adds_nothing_witness:
  "\<not> py_float_add (last_command_sent site) 1 > 10
   \<and> discover_lights_and_sync_statuses 10 10
       (Inr (snapshot [light_json ''a'' ''binary'' False 0])) site =
     (Inr PNone,
      site\<lparr>last_command_sent := 10,
           effects := [HttpGet ''https://houmi.herokuapp.com/api/site/site'',
                       AddDevices [HStr ''a'']],
           device_id_map := [HStr ''a'' \<mapsto> switch_a]\<rparr>)
   \<and> discover_lights_and_sync_statuses 20 20
       (Inr (snapshot [light_json ''a'' ''binary'' False 0]))
       (site\<lparr>last_command_sent := 10,
             effects := [HttpGet ''https://houmi.herokuapp.com/api/site/site'',
                         AddDevices [HStr ''a'']],
             device_id_map := [HStr ''a'' \<mapsto> switch_a]\<rparr>) =
     (Inr PNone,
      site\<lparr>last_command_sent := 20,
           effects := [HttpGet ''https://houmi.herokuapp.com/api/site/site'',
                       AddDevices [HStr ''a''],
                       HttpGet ''https://houmi.herokuapp.com/api/site/site''],
           device_id_map := [HStr ''a'' \<mapsto> switch_a]\<rparr>)
   \<and> announcements [HttpGet ''https://houmi.herokuapp.com/api/site/site'',
                     AddDevices [HStr ''a''],
                     HttpGet ''https://houmi.herokuapp.com/api/site/site'']
       = announcements [HttpGet ''https://houmi.herokuapp.com/api/site/site'',
                         AddDevices [HStr ''a'']]"
proof -
  let ?s1 = "site\<lparr>last_command_sent := 10,
                  effects := [HttpGet ''https://houmi.herokuapp.com/api/site/site'',
                              AddDevices [HStr ''a'']],
                  device_id_map := [HStr ''a'' \<mapsto> switch_a]\<rparr>"
  let ?s2 = "site\<lparr>last_command_sent := 20,
                  effects := [HttpGet ''https://houmi.herokuapp.com/api/site/site'',
                              AddDevices [HStr ''a''],
                              HttpGet ''https://houmi.herokuapp.com/api/site/site''],
                  device_id_map := [HStr ''a'' \<mapsto> switch_a]\<rparr>"
  have h1: "\<not> py_float_add (last_command_sent site) 1 > 10"
    by (simp add: site_def HoumController_init_def py_float_add_0_1)
  have p1: "discover_lights_and_sync_statuses 10 10
              (Inr (snapshot [light_json ''a'' ''binary'' False 0])) site = (Inr PNone, ?s1)"
    by (simp add: pass_defs switch_a_def)
  have h2: "\<not> py_float_add (last_command_sent ?s1) 1 > 20" by (simp add: py_float_add_10_1)
  have p2: "discover_lights_and_sync_statuses 20 20
              (Inr (snapshot [light_json ''a'' ''binary'' False 0])) ?s1 = (Inr PNone, ?s2)"
    by (simp add: pass_defs switch_a_def)
  from second_pass_adds_nothing [OF h1 p1 h2 p2]
  have "announcements (effects ?s2) = announcements (effects ?s1)" by simp
  with h1 p1 p2 show ?thesis by simp
qed

subsection \<open>Excluded ids\<close>

text \<open>
  C2. The claim: for an id whose configuration entry has \<^verbatim>\<open>exclude\<close> set, no record
  is ever inserted, and a snapshot entry with that id is dropped without an error, the
  pass going on with the other entries. The code does not insert it, but it does not
  drop it either: the entry takes the \<^verbatim>\<open>else\<close> branch, which reads the registry at
  an id that is not there. With \<open>x\<close> excluded, the first pass on a snapshot with \<open>x\<close>
  alone raises \<^verbatim>\<open>KeyError\<close>; on a snapshot with \<open>a\<close> and then \<open>x\<close> it raises
  \<^verbatim>\<open>KeyError\<close> after \<open>a\<close> has been inserted, so that \<open>a\<close> is never announced.
\<close>

theorem excluded_entry_raises_key_error:
  "discover_lights_and_sync_statuses 10 10
     (Inr (snapshot [light_json ''x'' ''binary'' False 0])) site_excluding_x =
     (Inl KeyError,
      site_excluding_x\<lparr>last_command_sent := 10,
           effects := [HttpGet ''https://houmi.herokuapp.com/api/site/site'']\<rparr>)
   \<and> discover_lights_and_sync_statuses 10 10
       (Inr (snapshot [light_json ''a'' ''binary'' False 0,
                       light_json ''x'' ''binary'' False 0])) site_excluding_x =
     (Inl KeyError,
      site_excluding_x\<lparr>last_command_sent := 10,
           effects := [HttpGet ''https://houmi.herokuapp.com/api/site/site''],
           device_id_map := [HStr ''a'' \<mapsto> switch_a]\<rparr>)"
  by (simp add: pass_defs site_excluding_x_def switch_a_def)

text \<open>The part of C2 that the code does: an id that is not in the registry and whose
  exclusion test is not plainly false is in no registry that the loop, or a pass, leaves
  behind, so it stays out over any number of passes.\<close>

lemma reconcile_excluded_not_inserted:
  "reconcile cfg ls reg new = (r, reg') \<Longrightarrow> reg k = None \<Longrightarrow>
   excluded cfg k \<noteq> Inr False \<Longrightarrow> reg' k = None"
proof (induction ls arbitrary: reg new)
  case Nil
  then show ?case by simp
next
  case (Cons l ls)
  show ?case
  proof (cases "py_hash (deviceId l)")
    case (Inl e)
    with Cons.prems show ?thesis by auto
  next
    case (Inr k0)
    note k0 = this
    show ?thesis
    proof (cases "excluded cfg k0")
      case (Inl e)
      with k0 Cons.prems show ?thesis by auto
    next
      case (Inr ex)
      note ex = this
      show ?thesis
      proof (cases "reg k0")
        case None
        show ?thesis
        proof (cases ex)
          case True
          with None k0 ex Cons.prems show ?thesis by auto
        next
          case False
          with ex Cons.prems(3) have ne: "k0 \<noteq> k" by auto
          from False None k0 ex Cons.prems(1)
          have run: "reconcile cfg ls (reg(k0 \<mapsto> l)) (new @ [k0]) = (r, reg')" by simp
          from ne Cons.prems(2) have "(reg(k0 \<mapsto> l)) k = None" by simp
          from Cons.IH[OF run this Cons.prems(3)] show ?thesis .
        qed
      next
        case (Some d0)
        with Cons.prems(2) have ne: "k0 \<noteq> k" by auto
        from Some k0 ex Cons.prems(1)
        have run: "reconcile cfg ls (reg(k0 \<mapsto> d0\<lparr>on := on l, bri := bri l\<rparr>)) new = (r, reg')"
          by simp
        from ne Cons.prems(2)
        have "(reg(k0 \<mapsto> d0\<lparr>on := on l, bri := bri l\<rparr>)) k = None" by simp
        from Cons.IH[OF run this Cons.prems(3)] show ?thesis .
      qed
    qed
  qed
qed

lemma discover_excluded_not_inserted:
  assumes "discover_lights_and_sync_statuses now0 now1 response s = (r, s')"
    and "device_id_map s k = None" and "excluded (config_device_data s) k \<noteq> Inr False"
  shows "device_id_map s' k = None"
  using discover_registry[OF assms(1)] assms(2,3) reconcile_excluded_not_inserted by fastforce

end
